theory Spec2Isabelle
  imports Complex_Main "HOL-Library.Multiset"
begin

section \<open>Data model\<close>

text \<open>
  The server keeps its data in two external stores: a PostgreSQL table
  \<^verbatim>\<open>documents (id SERIAL, content TEXT, embedding VECTOR(768))\<close> and, when
  \<^verbatim>\<open>NEO4J_URI\<close> is set, a Neo4j graph of \<^verbatim>\<open>Document\<close> and \<^verbatim>\<open>Token\<close> nodes with
  \<^verbatim>\<open>CONTAINS\<close> and \<^verbatim>\<open>PREDICATE\<close> relationships. Both are modelled as explicit
  state. A Go \<^verbatim>\<open>string\<close> is a byte sequence, here a \<^typ>\<open>string\<close>; a Go
  \<^verbatim>\<open>[]float32\<close> is a list whose element type \<open>'f\<close> is left open, because the
  code never computes with the components (the \<^verbatim>\<open>nil\<close> slice is \<open>[]\<close>); a Go
  \<^verbatim>\<open>error\<close> is an optional message, \<open>None\<close> for \<^verbatim>\<open>nil\<close>.
\<close>

type_synonym error = "string option"

record Triplet =
  Subject :: string
  Predicate :: string
  Object :: string

text \<open>The four Cypher statements that \<^verbatim>\<open>storage.go\<close> sends, with their parameters.\<close>

datatype 'f cypher =
    MergeDocument int string
  | MergeToken string "'f list" int
  | MergeTriplet string "'f list" string "'f list" string "'f list"
  | QueryNodes "'f list"

text \<open>Every call that leaves the process, in the order it is made.\<close>

datatype 'f call =
    HttpEmbed string
  | HttpGenerate string string
  | ExecExtract string
  | PgInsert string "'f list"
  | PgSelect "'f list"
  | Neo4jRun "'f cypher"

record 'f graph =
  Documents :: "(int \<times> string) list"
  Tokens :: "(string \<times> 'f list) list"
  CONTAINS :: "(string \<times> (int \<times> string)) list"
  PREDICATE :: "((string \<times> string \<times> string) \<times> 'f list) list"

record 'f world =
  documents :: "(int \<times> string \<times> 'f list) list"
  documents_id_seq :: int
  neo4j :: "'f graph"
  calls :: "'f call list"

text \<open>
  What lies outside the source is a parameter of the model: the environment variable
  \<^verbatim>\<open>GEMINI_API_KEY\<close>; the answers of the Gemini endpoints (\<open>Inl\<close> carries the
  message of a transport, status or decoding failure, \<open>Inr\<close> the decoded payload;
  the generation endpoint is indexed by query and context, from which the prompt is
  formatted); the output of \<^verbatim>\<open>extract_triplets.py\<close> (\<open>None\<close> when the command
  fails or prints something that does not decode); whether \<^verbatim>\<open>init\<close> opened a
  Neo4j driver; the error, if any, with which a store answers a call; pgvector's
  \<^verbatim>\<open><->\<close> distance and the score of Neo4j's vector index.
\<close>

record 'f env =
  GEMINI_API_KEY :: string
  embedContent :: "string \<Rightarrow> string + 'f list"
  generateContent :: "string \<Rightarrow> string \<Rightarrow> string + string list list"
  extract_triplets_py :: "string \<Rightarrow> (string list \<times> Triplet list) option"
  neo4jDriver :: bool
  db_error :: "'f call \<Rightarrow> string option"
  l2_distance :: "'f list \<Rightarrow> 'f list \<Rightarrow> real"
  index_score :: "'f list \<Rightarrow> 'f list \<Rightarrow> real"

definition record_call :: "'f call \<Rightarrow> 'f world \<Rightarrow> 'f world" where
  "record_call c w = w\<lparr>calls := calls w @ [c]\<rparr>"

section \<open>The Gemini client\<close>

definition GetEmbedding :: "'f env \<Rightarrow> string \<Rightarrow> 'f world \<Rightarrow> ('f list \<times> error) \<times> 'f world" where
  "GetEmbedding env text w =
     (if GEMINI_API_KEY env = [] then
        (([], Some ''GEMINI_API_KEY environment variable not set''), w)
      else
        let w' = record_call (HttpEmbed text) w in
        (case embedContent env text of
           Inl msg \<Rightarrow> (([], Some msg), w')
         | Inr values \<Rightarrow>
             if length values = 0 then
               (([], Some ''empty embedding returned from Gemini API''), w')
             else ((values, None), w')))"

definition GenerateResponse ::
  "'f env \<Rightarrow> string \<Rightarrow> string \<Rightarrow> 'f world \<Rightarrow> (string \<times> error) \<times> 'f world" where
  "GenerateResponse env query context w =
     (if GEMINI_API_KEY env = [] then
        (([], Some ''GEMINI_API_KEY environment variable not set''), w)
      else
        let w' = record_call (HttpGenerate query context) w in
        (case generateContent env query context of
           Inl msg \<Rightarrow> (([], Some msg), w')
         | Inr Candidates \<Rightarrow>
             (case Candidates of
                [] \<Rightarrow> (([], Some ''no valid response from Gemini API''), w')
              | Parts # _ \<Rightarrow>
                  (case Parts of
                     [] \<Rightarrow> (([], Some ''no valid response from Gemini API''), w')
                   | Text # _ \<Rightarrow> ((Text, None), w')))))"

section \<open>The graph store\<close>

text \<open>
  \<^verbatim>\<open>MERGE (t:Token {name: $name}) ON CREATE SET t.embedding = $embedding\<close>:
  the node is created with the embedding when no Token of that name exists, and is
  matched as it is otherwise.
\<close>

definition merge_token :: "string \<Rightarrow> 'f list \<Rightarrow> 'f graph \<Rightarrow> 'f graph" where
  "merge_token name embedding g =
     (if name \<in> fst ` set (Tokens g) then g
      else g\<lparr>Tokens := Tokens g @ [(name, embedding)]\<rparr>)"

definition merge_contains :: "string \<Rightarrow> (int \<times> string) \<Rightarrow> 'f graph \<Rightarrow> 'f graph" where
  "merge_contains name d g =
     (if (name, d) \<in> set (CONTAINS g) then g
      else g\<lparr>CONTAINS := CONTAINS g @ [(name, d)]\<rparr>)"

definition merge_predicate ::
  "string \<Rightarrow> string \<Rightarrow> string \<Rightarrow> 'f list \<Rightarrow> 'f graph \<Rightarrow> 'f graph" where
  "merge_predicate s p o' embedding g =
     (if (s, p, o') \<in> fst ` set (PREDICATE g) then g
      else g\<lparr>PREDICATE := PREDICATE g @ [((s, p, o'), embedding)]\<rparr>)"

fun cypher_write :: "'f cypher \<Rightarrow> 'f graph \<Rightarrow> 'f graph" where
  "cypher_write (MergeDocument docID content) g =
     (if (docID, content) \<in> set (Documents g) then g
      else g\<lparr>Documents := Documents g @ [(docID, content)]\<rparr>)"
| "cypher_write (MergeToken name embedding docID) g =
     (let g1 = merge_token name embedding g in
      fold (merge_contains name) (filter (\<lambda>d. fst d = docID) (Documents g1)) g1)"
| "cypher_write (MergeTriplet subject subjectEmb predicate predicateEmb object objectEmb) g =
     merge_predicate subject predicate object predicateEmb
       (merge_token object objectEmb (merge_token subject subjectEmb g))"
| "cypher_write (QueryNodes queryEmbedding) g = g"

text \<open>
  The read statement of \<^verbatim>\<open>SearchDocuments\<close>: the ten Token nodes with the best
  index score (the index is taken to hold every Token node), each followed along its
  \<^verbatim>\<open>CONTAINS\<close> relationships to Document nodes, the first content kept
  (\<^verbatim>\<open>LIMIT 1\<close>). A Document node is only ever written with a string content, so
  the assertion \<^verbatim>\<open>.(string)\<close> on the value of the record holds.
\<close>

definition queryNodes :: "'f env \<Rightarrow> 'f list \<Rightarrow> 'f graph \<Rightarrow> (string \<times> 'f list) list" where
  "queryNodes env queryEmbedding g =
     take 10 (sort_key (\<lambda>t. - index_score env queryEmbedding (snd t)) (Tokens g))"

definition cypher_read :: "'f env \<Rightarrow> 'f list \<Rightarrow> 'f graph \<Rightarrow> string list" where
  "cypher_read env queryEmbedding g =
     take 1 (concat (map (\<lambda>token.
        map (\<lambda>e. snd (snd e))
          (filter (\<lambda>e. fst e = fst token \<and> snd e \<in> set (Documents g)) (CONTAINS g)))
        (queryNodes env queryEmbedding g)))"

text \<open>\<^verbatim>\<open>session.Run\<close>: the call is made; a failure leaves the graph as it was.\<close>

definition session_Run :: "'f env \<Rightarrow> 'f cypher \<Rightarrow> 'f world \<Rightarrow> error \<times> 'f world" where
  "session_Run env q w =
     (let w' = record_call (Neo4jRun q) w in
      case db_error env (Neo4jRun q) of
        Some e \<Rightarrow> (Some e, w')
      | None \<Rightarrow> (None, w'\<lparr>neo4j := cypher_write q (neo4j w')\<rparr>))"

section \<open>Ingestion\<close>

text \<open>\<^verbatim>\<open>strings.Split(content, " ")\<close>, the fallback tokenizer.\<close>

fun Split :: "string \<Rightarrow> char \<Rightarrow> string list" where
  "Split [] sep = [[]]"
| "Split (c # s) sep =
     (if c = sep then [] # Split s sep
      else (case Split s sep of [] \<Rightarrow> [[c]] | t # ts \<Rightarrow> (c # t) # ts))"

definition extractTokensAndTriplets ::
  "'f env \<Rightarrow> string \<Rightarrow> 'f world \<Rightarrow> (string list \<times> Triplet list) \<times> 'f world" where
  "extractTokensAndTriplets env content w =
     (let w' = record_call (ExecExtract content) w in
      case extract_triplets_py env content of
        None \<Rightarrow> ((Split content CHR '' '', []), w')
      | Some result \<Rightarrow> (result, w'))"

fun token_loop :: "'f env \<Rightarrow> int \<Rightarrow> string list \<Rightarrow> 'f world \<Rightarrow> error \<times> 'f world" where
  "token_loop env docID [] w = (None, w)"
| "token_loop env docID (token # rest) w =
     (case GetEmbedding env token w of ((tokenEmbedding, err), w1) \<Rightarrow>
        if err \<noteq> None then (err, w1)
        else (case session_Run env (MergeToken token tokenEmbedding docID) w1 of (err, w2) \<Rightarrow>
          if err \<noteq> None then (err, w2)
          else token_loop env docID rest w2))"

fun triplet_loop :: "'f env \<Rightarrow> Triplet list \<Rightarrow> 'f world \<Rightarrow> error \<times> 'f world" where
  "triplet_loop env [] w = (None, w)"
| "triplet_loop env (triplet # rest) w =
     (case GetEmbedding env (Subject triplet) w of ((subjectEmb, _), w1) \<Rightarrow>
      case GetEmbedding env (Predicate triplet) w1 of ((predicateEmb, _), w2) \<Rightarrow>
      case GetEmbedding env (Object triplet) w2 of ((objectEmb, _), w3) \<Rightarrow>
      case session_Run env
             (MergeTriplet (Subject triplet) subjectEmb (Predicate triplet) predicateEmb
                (Object triplet) objectEmb) w3 of (err, w4) \<Rightarrow>
        if err \<noteq> None then (err, w4)
        else triplet_loop env rest w4)"

text \<open>
  \<^verbatim>\<open>AddTokenAndTriplets\<close> is called from \<^verbatim>\<open>AddDocument\<close> only, under the test
  \<^verbatim>\<open>neo4jDriver != nil\<close>; the model covers that call.
\<close>

definition AddTokenAndTriplets ::
  "'f env \<Rightarrow> string \<Rightarrow> 'f list \<Rightarrow> int \<Rightarrow> 'f world \<Rightarrow> error \<times> 'f world" where
  "AddTokenAndTriplets env content embedding docID w =
     (case extractTokensAndTriplets env content w of ((tokens, triplets), w0) \<Rightarrow>
      case session_Run env (MergeDocument docID content) w0 of (err, w1) \<Rightarrow>
        if err \<noteq> None then (err, w1)
        else (case token_loop env docID tokens w1 of (err, w2) \<Rightarrow>
          if err \<noteq> None then (err, w2)
          else triplet_loop env triplets w2))"

text \<open>
  \<^verbatim>\<open>INSERT INTO documents ... RETURNING id\<close>: the row takes the next value of the
  table's sequence.
\<close>

definition pg_insert :: "'f env \<Rightarrow> string \<Rightarrow> 'f list \<Rightarrow> 'f world \<Rightarrow> (string + int) \<times> 'f world" where
  "pg_insert env content embedding w =
     (let w' = record_call (PgInsert content embedding) w in
      case db_error env (PgInsert content embedding) of
        Some e \<Rightarrow> (Inl e, w')
      | None \<Rightarrow>
          (let docID = documents_id_seq w' in
           (Inr docID, w'\<lparr>documents := documents w' @ [(docID, content, embedding)],
                          documents_id_seq := docID + 1\<rparr>)))"

definition AddDocument :: "'f env \<Rightarrow> string \<Rightarrow> 'f list \<Rightarrow> 'f world \<Rightarrow> error \<times> 'f world" where
  "AddDocument env content embedding w =
     (case pg_insert env content embedding w of
        (Inl err, w1) \<Rightarrow> (Some err, w1)
      | (Inr docID, w1) \<Rightarrow>
          if neo4jDriver env then AddTokenAndTriplets env content embedding docID w1
          else (None, w1))"

section \<open>Retrieval\<close>

text \<open>
  \<^verbatim>\<open>SELECT content FROM documents ORDER BY embedding <-> $1 LIMIT 1\<close>, scanned into
  a string: the first row at the least distance, and pgx's
  \<^verbatim>\<open>no rows in result set\<close> on an empty table. In \<^verbatim>\<open>SearchDocuments\<close> the
  merged context is the vector content, then a line break and \<^verbatim>\<open>Graph context: \<close>,
  then the graph content.
\<close>

fun nearest :: "('a \<Rightarrow> real) \<Rightarrow> 'a \<Rightarrow> 'a list \<Rightarrow> 'a" where
  "nearest d best [] = best"
| "nearest d best (r # rs) = nearest d (if d r < d best then r else best) rs"

definition pg_select :: "'f env \<Rightarrow> 'f list \<Rightarrow> 'f world \<Rightarrow> (string + string) \<times> 'f world" where
  "pg_select env queryEmbedding w =
     (let w' = record_call (PgSelect queryEmbedding) w in
      case db_error env (PgSelect queryEmbedding) of
        Some e \<Rightarrow> (Inl e, w')
      | None \<Rightarrow>
          (case documents w' of
             [] \<Rightarrow> (Inl ''no rows in result set'', w')
           | r # rs \<Rightarrow>
               (Inr (fst (snd (nearest (\<lambda>row. l2_distance env (snd (snd row)) queryEmbedding) r rs))),
                w')))"

definition SearchDocuments ::
  "'f env \<Rightarrow> 'f list \<Rightarrow> bool \<Rightarrow> 'f world \<Rightarrow> (string \<times> error) \<times> 'f world" where
  "SearchDocuments env queryEmbedding useGraph w =
     (case pg_select env queryEmbedding w of
        (Inl err, w1) \<Rightarrow>
          (([], Some (''failed to search documents in PostgreSQL: '' @ err)), w1)
      | (Inr pgContent, w1) \<Rightarrow>
          if \<not> useGraph \<or> \<not> neo4jDriver env then ((pgContent, None), w1)
          else
            (case session_Run env (QueryNodes queryEmbedding) w1 of (err, w2) \<Rightarrow>
               (case err of
                  Some e \<Rightarrow>
                    ((pgContent, Some (''failed to search documents in Neo4j: '' @ e)), w2)
                | None \<Rightarrow>
                    (let neo4jContent =
                           (case cypher_read env queryEmbedding (neo4j w2) of
                              [] \<Rightarrow> [] | content # _ \<Rightarrow> content);
                         context = pgContent;
                         context = (if neo4jContent \<noteq> []
                                    then context @ CHR 0x0A # ''Graph context: '' @ neo4jContent
                                    else context)
                     in ((context, None), w2)))))"

section \<open>The request handlers\<close>

text \<open>
  \<^verbatim>\<open>strings.TrimSpace\<close> of Go's standard library removes leading and trailing
  Unicode white space. On the bytes of a string these are the six ASCII characters
  and the UTF-8 encodings of U+0085, U+00A0, U+1680, U+2000 to U+200A, U+2028,
  U+2029, U+202F, U+205F and U+3000; \<^verbatim>\<open>len\<close> counts bytes.
\<close>

definition white_space :: "string list" where
  "white_space =
     [[CHR 0x09], [CHR 0x0A], [CHR 0x0B], [CHR 0x0C], [CHR 0x0D], [CHR 0x20],
      [CHR 0xC2, CHR 0x85], [CHR 0xC2, CHR 0xA0],
      [CHR 0xE1, CHR 0x9A, CHR 0x80],
      [CHR 0xE2, CHR 0x80, CHR 0x80], [CHR 0xE2, CHR 0x80, CHR 0x81],
      [CHR 0xE2, CHR 0x80, CHR 0x82], [CHR 0xE2, CHR 0x80, CHR 0x83],
      [CHR 0xE2, CHR 0x80, CHR 0x84], [CHR 0xE2, CHR 0x80, CHR 0x85],
      [CHR 0xE2, CHR 0x80, CHR 0x86], [CHR 0xE2, CHR 0x80, CHR 0x87],
      [CHR 0xE2, CHR 0x80, CHR 0x88], [CHR 0xE2, CHR 0x80, CHR 0x89],
      [CHR 0xE2, CHR 0x80, CHR 0x8A],
      [CHR 0xE2, CHR 0x80, CHR 0xA8], [CHR 0xE2, CHR 0x80, CHR 0xA9],
      [CHR 0xE2, CHR 0x80, CHR 0xAF],
      [CHR 0xE2, CHR 0x81, CHR 0x9F],
      [CHR 0xE3, CHR 0x80, CHR 0x80]]"

function TrimLeft :: "string list \<Rightarrow> string \<Rightarrow> string" where
  "TrimLeft cutset s =
     (case find (\<lambda>p. p \<noteq> [] \<and> take (length p) s = p) cutset of
        None \<Rightarrow> s
      | Some p \<Rightarrow> TrimLeft cutset (drop (length p) s))"
  by pat_completeness auto
termination
proof (relation "measure (\<lambda>(cutset, s). length s)")
  show "wf (measure (\<lambda>(cutset, s). length s))" by simp
next
  fix cutset :: "string list" and s p :: string
  assume "find (\<lambda>p. p \<noteq> [] \<and> take (length p) s = p) cutset = Some p"
  then have "p \<noteq> []" and "take (length p) s = p"
    by (auto simp: find_Some_iff)
  then have "s \<noteq> []" by auto
  with \<open>p \<noteq> []\<close> show "((cutset, drop (length p) s), (cutset, s)) \<in> measure (\<lambda>(cutset, s). length s)"
    by simp
qed

declare TrimLeft.simps [simp del]

definition TrimSpace :: "string \<Rightarrow> string" where
  "TrimSpace s = rev (TrimLeft (map rev white_space) (rev (TrimLeft white_space s)))"

text \<open>
  A response is the status code and the \<^verbatim>\<open>gin.H\<close> object passed to \<^verbatim>\<open>c.JSON\<close>.
  The outcome of \<^verbatim>\<open>c.ShouldBindJSON\<close> (gin's decoding and \<^verbatim>\<open>binding\<close> checks) is
  the handler's input.
\<close>

datatype jvalue = JString string | JStrings "string list"

record response =
  status :: nat
  H :: "(string \<times> jvalue) list"

datatype 'a binding = BindError string | Bound 'a

definition StatusOK :: nat where "StatusOK = 200"
definition StatusBadRequest :: nat where "StatusBadRequest = 400"
definition StatusInternalServerError :: nat where "StatusInternalServerError = 500"

definition JSON :: "nat \<Rightarrow> (string \<times> jvalue) list \<Rightarrow> response" where
  "JSON code obj = \<lparr>status = code, H = obj\<rparr>"

text \<open>
  The loop of \<^verbatim>\<open>AddDocuments\<close> validates one document and starts its goroutine
  before it looks at the next one: \<open>launch\<close> gives the trimmed texts whose goroutines
  were started, and whether the loop left through the validation \<^verbatim>\<open>return\<close>.
\<close>

fun launch :: "string list \<Rightarrow> string list \<times> bool" where
  "launch [] = ([], False)"
| "launch (doc # rest) =
     (let trimmedText = TrimSpace doc in
      if length trimmedText < 5 then ([], True)
      else (case launch rest of (started, rejected) \<Rightarrow> (trimmedText # started, rejected)))"

text \<open>The body of one goroutine, on the shared \<^verbatim>\<open>errors\<close> slice.\<close>

definition goroutine :: "'f env \<Rightarrow> string \<Rightarrow> string list \<times> 'f world \<Rightarrow> string list \<times> 'f world" where
  "goroutine env text st =
     (case st of (errors, w) \<Rightarrow>
      case GetEmbedding env text w of ((embedding, err), w1) \<Rightarrow>
        (case err of
           Some e \<Rightarrow> (errors @ [e], w1)
         | None \<Rightarrow>
             (case AddDocument env text embedding w1 of (err, w2) \<Rightarrow>
                (case err of
                   Some e \<Rightarrow> (errors @ [e], w2)
                 | None \<Rightarrow> (errors, w2)))))"

text \<open>
  The handler under the schedule in which the goroutines of a batch run one after the
  other in the order in which they were started, each to its end. It serves for what
  holds of each goroutine whatever the others do; all the schedules of the source are
  given further down, with this one among them. Goroutines started before a
  validation \<^verbatim>\<open>return\<close> are not cancelled: the state returned with the 400
  response is the one they leave behind.
\<close>

definition AddDocuments ::
  "'f env \<Rightarrow> string list binding \<Rightarrow> 'f world \<Rightarrow> response \<times> 'f world" where
  "AddDocuments env req w =
     (case req of
        BindError msg \<Rightarrow>
          (JSON StatusBadRequest [(''error'', JString (''Invalid request: '' @ msg))], w)
      | Bound docs \<Rightarrow>
          if length docs = 0 then
            (JSON StatusBadRequest [(''error'', JString ''Documents list cannot be empty'')], w)
          else
            (case launch docs of (started, rejected) \<Rightarrow>
             case fold (goroutine env) started ([], w) of (errors, w') \<Rightarrow>
               if rejected then
                 (JSON StatusBadRequest
                    [(''error'', JString ''Document text must be at least 5 characters long'')], w')
               else if length errors > 0 then
                 (JSON StatusInternalServerError
                    [(''error'', JString ''Failed to process some documents''),
                     (''details'', JStrings errors)], w')
               else
                 (JSON StatusOK [(''message'', JString ''Documents added successfully'')], w')))"

text \<open>
  The handler in the source calls \<^verbatim>\<open>services.SearchDocuments(embedding)\<close> with the
  embedding alone; the flag that \<^verbatim>\<open>SearchDocuments\<close> expects is a parameter here.
\<close>

definition Query :: "'f env \<Rightarrow> string binding \<Rightarrow> bool \<Rightarrow> 'f world \<Rightarrow> response \<times> 'f world" where
  "Query env req useGraph w =
     (case req of
        BindError msg \<Rightarrow>
          (JSON StatusBadRequest [(''error'', JString (''Invalid request: '' @ msg))], w)
      | Bound query \<Rightarrow>
          (let trimmedQuery = TrimSpace query in
           if length trimmedQuery < 3 then
             (JSON StatusBadRequest
                [(''error'', JString ''Query must be at least 3 characters long'')], w)
           else
             (case GetEmbedding env trimmedQuery w of ((embedding, err), w1) \<Rightarrow>
               (case err of
                  Some e \<Rightarrow>
                    (JSON StatusInternalServerError
                       [(''error'', JString (''Failed to get query embedding: '' @ e))], w1)
                | None \<Rightarrow>
                   (case SearchDocuments env embedding useGraph w1 of ((context, err), w2) \<Rightarrow>
                     (case err of
                        Some e \<Rightarrow>
                          (JSON StatusInternalServerError
                             [(''error'', JString (''Failed to search documents: '' @ e))], w2)
                      | None \<Rightarrow>
                         (case GenerateResponse env trimmedQuery context w2 of
                            ((response, err), w3) \<Rightarrow>
                              (case err of
                                 Some e \<Rightarrow>
                                   (JSON StatusInternalServerError
                                      [(''error'',
                                        JString (''Failed to generate response: '' @ e))], w3)
                               | None \<Rightarrow>
                                   (JSON StatusOK [(''response'', JString response)], w3)))))))))"

text \<open>The upload: the form file may be missing, or fail to read.\<close>

datatype upload = NoFormFile | ReadFailed | File string

definition UploadDocumentGin :: "'f env \<Rightarrow> upload \<Rightarrow> 'f world \<Rightarrow> response \<times> 'f world" where
  "UploadDocumentGin env req w =
     (case req of
        NoFormFile \<Rightarrow> (JSON StatusBadRequest [(''error'', JString ''Failed to read file'')], w)
      | ReadFailed \<Rightarrow>
          (JSON StatusInternalServerError [(''error'', JString ''Failed to read content'')], w)
      | File content \<Rightarrow>
          (case GetEmbedding env content w of ((embedding, err), w1) \<Rightarrow>
            (case err of
               Some e \<Rightarrow>
                 (JSON StatusInternalServerError
                    [(''error'', JString (''Failed to generate embedding: '' @ e))], w1)
             | None \<Rightarrow>
                (case AddDocument env content embedding w1 of (err, w2) \<Rightarrow>
                  (case err of
                     Some e \<Rightarrow>
                       (JSON StatusInternalServerError
                          [(''error'', JString (''Failed to save document: '' @ e))], w2)
                   | None \<Rightarrow>
                       (JSON StatusOK
                          [(''message'', JString ''Document uploaded successfully'')], w2))))))"

section \<open>The goroutines of a batch, interleaved\<close>

text \<open>
  \<^verbatim>\<open>AddDocuments\<close> above is the handler under one schedule: each goroutine runs
  to its end before the next one starts. In the source the goroutines run concurrently,
  on the one \<^verbatim>\<open>pgConn\<close> and the one Neo4j driver of the package, and each appends
  its error to \<^verbatim>\<open>errors\<close> under the mutex when it gets there. What follows gives
  every schedule. A goroutine is cut at its calls: its position says which call comes
  next and holds the locals it needs.
\<close>

datatype 'f pc =
    Start
  | HaveEmbedding "'f list"
  | Inserted int
  | Extracted int "string list" "Triplet list"
  | TokenNext int string "string list" "Triplet list"
  | TokenEmbedded int "'f list" string "string list" "Triplet list"
  | TripletNext Triplet "Triplet list"
  | TripletS "'f list" Triplet "Triplet list"
  | TripletSP "'f list" "'f list" Triplet "Triplet list"
  | TripletSPO "'f list" "'f list" "'f list" Triplet "Triplet list"
  | Recording string
  | Done error

text \<open>The head of the triplet loop and of the token loop of \<^verbatim>\<open>AddTokenAndTriplets\<close>.\<close>

definition enter_triplets :: "Triplet list \<Rightarrow> 'f pc" where
  "enter_triplets triplets =
     (case triplets of [] \<Rightarrow> Done None | triplet # rest \<Rightarrow> TripletNext triplet rest)"

definition enter_tokens :: "int \<Rightarrow> string list \<Rightarrow> Triplet list \<Rightarrow> 'f pc" where
  "enter_tokens docID tokens triplets =
     (case tokens of [] \<Rightarrow> enter_triplets triplets
      | token # rest \<Rightarrow> TokenNext docID token rest triplets)"

text \<open>
  One move of the goroutine of \<open>text\<close>: the next call of the goroutine body, of
  \<^verbatim>\<open>AddDocument\<close> and of \<^verbatim>\<open>AddTokenAndTriplets\<close>, with the test of its error.
  A failure leads to \<open>Recording\<close>, the locked append to \<^verbatim>\<open>errors\<close>, which is a
  move of its own; \<open>Done\<close> is \<^verbatim>\<open>wg.Done\<close>, with the error the goroutine ended on.
\<close>

fun advance ::
  "'f env \<Rightarrow> string \<Rightarrow> 'f pc \<Rightarrow> string list \<times> 'f world \<Rightarrow> 'f pc \<times> string list \<times> 'f world" where
  "advance env text Start (errors, w) =
     (case GetEmbedding env text w of ((embedding, err), w1) \<Rightarrow>
        (case err of
           Some e \<Rightarrow> (Recording e, errors, w1)
         | None \<Rightarrow> (HaveEmbedding embedding, errors, w1)))"
| "advance env text (HaveEmbedding embedding) (errors, w) =
     (case pg_insert env text embedding w of
        (Inl e, w1) \<Rightarrow> (Recording e, errors, w1)
      | (Inr docID, w1) \<Rightarrow>
          if neo4jDriver env then (Inserted docID, errors, w1) else (Done None, errors, w1))"
| "advance env text (Inserted docID) (errors, w) =
     (case extractTokensAndTriplets env text w of ((tokens, triplets), w1) \<Rightarrow>
        (Extracted docID tokens triplets, errors, w1))"
| "advance env text (Extracted docID tokens triplets) (errors, w) =
     (case session_Run env (MergeDocument docID text) w of (err, w1) \<Rightarrow>
        (case err of
           Some e \<Rightarrow> (Recording e, errors, w1)
         | None \<Rightarrow> (enter_tokens docID tokens triplets, errors, w1)))"
| "advance env text (TokenNext docID token rest triplets) (errors, w) =
     (case GetEmbedding env token w of ((tokenEmbedding, err), w1) \<Rightarrow>
        (case err of
           Some e \<Rightarrow> (Recording e, errors, w1)
         | None \<Rightarrow> (TokenEmbedded docID tokenEmbedding token rest triplets, errors, w1)))"
| "advance env text (TokenEmbedded docID tokenEmbedding token rest triplets) (errors, w) =
     (case session_Run env (MergeToken token tokenEmbedding docID) w of (err, w1) \<Rightarrow>
        (case err of
           Some e \<Rightarrow> (Recording e, errors, w1)
         | None \<Rightarrow> (enter_tokens docID rest triplets, errors, w1)))"
| "advance env text (TripletNext triplet rest) (errors, w) =
     (case GetEmbedding env (Subject triplet) w of ((subjectEmb, _), w1) \<Rightarrow>
        (TripletS subjectEmb triplet rest, errors, w1))"
| "advance env text (TripletS subjectEmb triplet rest) (errors, w) =
     (case GetEmbedding env (Predicate triplet) w of ((predicateEmb, _), w1) \<Rightarrow>
        (TripletSP subjectEmb predicateEmb triplet rest, errors, w1))"
| "advance env text (TripletSP subjectEmb predicateEmb triplet rest) (errors, w) =
     (case GetEmbedding env (Object triplet) w of ((objectEmb, _), w1) \<Rightarrow>
        (TripletSPO subjectEmb predicateEmb objectEmb triplet rest, errors, w1))"
| "advance env text (TripletSPO subjectEmb predicateEmb objectEmb triplet rest) (errors, w) =
     (case session_Run env
             (MergeTriplet (Subject triplet) subjectEmb (Predicate triplet) predicateEmb
                (Object triplet) objectEmb) w of (err, w1) \<Rightarrow>
        (case err of
           Some e \<Rightarrow> (Recording e, errors, w1)
         | None \<Rightarrow> (enter_triplets rest, errors, w1)))"
| "advance env text (Recording e) (errors, w) = (Done (Some e), errors @ [e], w)"
| "advance env text (Done r) (errors, w) = (Done r, errors, w)"

fun finished :: "'f pc \<Rightarrow> bool" where
  "finished (Done r) = True"
| "finished _ = False"

text \<open>
  The process keeps its configuration (the key and the driver); what the collaborators
  answer may differ from one call to the next, also for the same arguments, as when
  the shared connection is busy.
\<close>

definition same_process :: "'f env \<Rightarrow> 'f env \<Rightarrow> bool" where
  "same_process env env' \<longleftrightarrow>
     GEMINI_API_KEY env' = GEMINI_API_KEY env \<and> neo4jDriver env' = neo4jDriver env"

text \<open>
  A schedule moves one unfinished goroutine at a time, in any order. The state is the
  goroutines with their positions, the \<^verbatim>\<open>errors\<close> slice, and the stores.
\<close>

inductive step ::
  "'f env \<Rightarrow> (string \<times> 'f pc) list \<times> string list \<times> 'f world
     \<Rightarrow> (string \<times> 'f pc) list \<times> string list \<times> 'f world \<Rightarrow> bool" where
  move: "same_process env env' \<Longrightarrow> \<not> finished pc \<Longrightarrow> advance env' text pc st = (pc', st') \<Longrightarrow>
         step env (before @ (text, pc) # after, st) (before @ (text, pc') # after, st')"



text \<open>
  How far a goroutine is from its end: the calls of \<^verbatim>\<open>AddDocument\<close> before the
  extractor has answered, and after that the calls left in the two loops.
\<close>

fun stage :: "'f pc \<Rightarrow> nat" where
  "stage Start = 3"
| "stage (HaveEmbedding embedding) = 2"
| "stage (Inserted docID) = 1"
| "stage _ = 0"

fun work :: "'f pc \<Rightarrow> nat" where
  "work (Extracted docID tokens triplets) = 2 * length tokens + 4 * length triplets + 3"
| "work (TokenNext docID token rest triplets) = 2 * length rest + 4 * length triplets + 4"
| "work (TokenEmbedded docID tokenEmbedding token rest triplets) =
     2 * length rest + 4 * length triplets + 3"
| "work (TripletNext triplet rest) = 4 * length rest + 5"
| "work (TripletS subjectEmb triplet rest) = 4 * length rest + 4"
| "work (TripletSP subjectEmb predicateEmb triplet rest) = 4 * length rest + 3"
| "work (TripletSPO subjectEmb predicateEmb objectEmb triplet rest) = 4 * length rest + 2"
| "work (Recording e) = 1"
| "work _ = 0"

definition distance ::
  "(string \<times> 'f pc) list \<times> string list \<times> 'f world \<Rightarrow> nat \<times> nat" where
  "distance c =
     (sum_list (map (\<lambda>g. stage (snd g)) (fst c)), sum_list (map (\<lambda>g. work (snd g)) (fst c)))"

text \<open>The messages of the goroutines that ended on an error.\<close>

fun failure :: "'f pc \<Rightarrow> string list" where
  "failure (Done (Some e)) = [e]"
| "failure _ = []"

definition failures :: "(string \<times> 'f pc) list \<Rightarrow> string list" where
  "failures pool = concat (map (\<lambda>g. failure (snd g)) pool)"

section \<open>Observations used in the statements\<close>

text \<open>The Cypher statements sent to Neo4j so far, and the stored embedding of a Token.\<close>

fun neo4j_statements :: "'f call list \<Rightarrow> 'f cypher list" where
  "neo4j_statements [] = []"
| "neo4j_statements (Neo4jRun q # cs) = q # neo4j_statements cs"
| "neo4j_statements (c # cs) = neo4j_statements cs"

definition token_embedding :: "'f graph \<Rightarrow> string \<Rightarrow> 'f list option" where
  "token_embedding g name = map_of (Tokens g) name"

definition predicate_embedding :: "'f graph \<Rightarrow> string \<times> string \<times> string \<Rightarrow> 'f list option" where
  "predicate_embedding g e = map_of (PREDICATE g) e"

text \<open>The embedding that the triplet loop passes on for a field: \<^verbatim>\<open>nil\<close> on failure.\<close>

definition embedding_or_nil :: "'f env \<Rightarrow> string \<Rightarrow> 'f list" where
  "embedding_or_nil env text =
     (if GEMINI_API_KEY env = [] then []
      else (case embedContent env text of Inl msg \<Rightarrow> [] | Inr values \<Rightarrow> values))"

definition triplet_statement :: "'f env \<Rightarrow> Triplet \<Rightarrow> 'f cypher" where
  "triplet_statement env t =
     MergeTriplet (Subject t) (embedding_or_nil env (Subject t))
       (Predicate t) (embedding_or_nil env (Predicate t))
       (Object t) (embedding_or_nil env (Object t))"


text \<open>
  The states of the two stores that the handlers can produce from empty stores, with
  any environment at each request.
\<close>

definition empty_graph :: "'f graph" where
  "empty_graph = \<lparr>Documents = [], Tokens = [], CONTAINS = [], PREDICATE = []\<rparr>"

definition empty_world :: "'f world" where
  "empty_world = \<lparr>documents = [], documents_id_seq = 1, neo4j = empty_graph, calls = []\<rparr>"




section \<open>Sample environments and states\<close>

text \<open>
  An environment in which every collaborator answers: the embedding of a text is its
  length, the extractor is unavailable (so the fallback tokenizer is used), and the
  generative model echoes the context.
\<close>

definition demo_env :: "nat env" where
  "demo_env =
     \<lparr>GEMINI_API_KEY = ''key'',
      embedContent = (\<lambda>text. Inr [length text]),
      generateContent = (\<lambda>query context. Inr [[context]]),
      extract_triplets_py = (\<lambda>content. None),
      neo4jDriver = True,
      db_error = (\<lambda>c. None),
      l2_distance = (\<lambda>a b. 0),
      index_score = (\<lambda>a b. 0)\<rparr>"

definition stored_world :: "nat world" where
  "stored_world =
     \<lparr>documents = [(1, ''alpha'', [5]), (2, ''beta'', [4])], documents_id_seq = 3,
      neo4j = \<lparr>Documents = [(2, ''beta'')], Tokens = [(''beta'', [4])],
               CONTAINS = [(''beta'', (2, ''beta''))], PREDICATE = []\<rparr>,
      calls = []\<rparr>"

text \<open>The same environment with Neo4j answering the index query with an error.\<close>

definition graph_down_env :: "nat env" where
  "graph_down_env =
     demo_env\<lparr>db_error :=
       (\<lambda>c. case c of
              Neo4jRun q \<Rightarrow> (case q of QueryNodes e \<Rightarrow> Some ''connection refused'' | _ \<Rightarrow> None)
            | _ \<Rightarrow> None)\<rparr>"

text \<open>The same environment started without \<^verbatim>\<open>NEO4J_URI\<close>.\<close>

definition vector_only_env :: "nat env" where
  "vector_only_env = demo_env\<lparr>neo4jDriver := False\<rparr>"

text \<open>Environments in which the embedding endpoint fails for one text.\<close>

definition token_fail_env :: "nat env" where
  "token_fail_env =
     demo_env\<lparr>embedContent :=
       (\<lambda>text. if text = ''alpha'' then Inl ''status 503'' else Inr [length text])\<rparr>"


text \<open>
  An environment in which the extractor answers with two tokens and one triplet, and
  the embedding endpoint fails for the predicate.
\<close>

definition triplet_env :: "nat env" where
  "triplet_env =
     demo_env\<lparr>embedContent :=
                 (\<lambda>text. if text = ''is'' then Inl ''status 503'' else Inr [length text]),
               extract_triplets_py :=
                 (\<lambda>content. Some ([''go'', ''fast''],
                    [\<lparr>Subject = ''go'', Predicate = ''is'', Object = ''fast''\<rparr>]))\<rparr>"

text \<open>An environment whose embedding endpoint answers every text with the same vector.\<close>

definition other_env :: "nat env" where
  "other_env = demo_env\<lparr>embedContent := (\<lambda>text. Inr [99])\<rparr>"

section \<open>What a call leaves unchanged\<close>

lemma record_call_simps [simp]:
  "documents (record_call c w) = documents w"
  "documents_id_seq (record_call c w) = documents_id_seq w"
  "neo4j (record_call c w) = neo4j w"
  "calls (record_call c w) = calls w @ [c]"
  by (simp_all add: record_call_def)

lemma neo4j_statements_append [simp]:
  "neo4j_statements (xs @ ys) = neo4j_statements xs @ neo4j_statements ys"
  by (induction xs rule: neo4j_statements.induct) simp_all

lemma GetEmbedding_frame [simp]:
  "documents (snd (GetEmbedding env t w)) = documents w"
  "documents_id_seq (snd (GetEmbedding env t w)) = documents_id_seq w"
  "neo4j (snd (GetEmbedding env t w)) = neo4j w"
  "neo4j_statements (calls (snd (GetEmbedding env t w))) = neo4j_statements (calls w)"
  by (simp_all add: GetEmbedding_def Let_def split: sum.splits)

lemma pg_insert_frame [simp]:
  "neo4j (snd (pg_insert env c e w)) = neo4j w"
  "neo4j_statements (calls (snd (pg_insert env c e w))) = neo4j_statements (calls w)"
  by (simp_all add: pg_insert_def Let_def split: option.splits)

lemma pg_select_world: "snd (pg_select env q w) = record_call (PgSelect q) w"
  by (simp add: pg_select_def Let_def split: option.splits list.splits)

lemma AddDocuments_world:
  "snd (AddDocuments env req w) =
     (case req of BindError msg \<Rightarrow> w
      | Bound docs \<Rightarrow> if docs = [] then w else snd (fold (goroutine env) (fst (launch docs)) ([], w)))"
  by (simp add: AddDocuments_def split: binding.splits prod.splits)

section \<open>The merge of vector and graph context\<close>

text \<open>
  C1. When the vector search returns \<open>A\<close> and the graph search returns a non-empty
  \<open>B\<close>, \<^verbatim>\<open>SearchDocuments\<close> returns \<open>A\<close>, then the separator
  \<^verbatim>\<open>"\nGraph context: "\<close>, then \<open>B\<close>, with no error. When the graph search is not
  asked for, no driver is configured, or the graph search finds no record or an empty
  content, it returns \<open>A\<close> exactly.
\<close>

theorem SearchDocuments_merge:
  assumes "fst (pg_select env q w) = Inr A"
  shows "(useGraph \<and> neo4jDriver env \<and> db_error env (Neo4jRun (QueryNodes q)) = None
            \<and> cypher_read env q (neo4j w) = [B] \<and> B \<noteq> []
          \<longrightarrow> fst (SearchDocuments env q useGraph w) = (A @ CHR 0x0A # ''Graph context: '' @ B, None))
       \<and> (\<not> useGraph \<or> \<not> neo4jDriver env
            \<or> (db_error env (Neo4jRun (QueryNodes q)) = None
                \<and> (cypher_read env q (neo4j w) = [] \<or> cypher_read env q (neo4j w) = [[]]))
          \<longrightarrow> fst (SearchDocuments env q useGraph w) = (A, None))"
proof -
  obtain w1 where sel: "pg_select env q w = (Inr A, w1)"
    using assms by (cases "pg_select env q w") auto
  have w1: "w1 = record_call (PgSelect q) w"
    using pg_select_world [of env q w] sel by simp
  show ?thesis
    by (auto simp: SearchDocuments_def sel w1 session_Run_def Let_def)
qed

theorem SearchDocuments_merge_witness:
  "fst (SearchDocuments demo_env [4] True stored_world)
     = (''alpha'' @ CHR 0x0A # ''Graph context: '' @ ''beta'', None)
   \<and> fst (SearchDocuments demo_env [4] False stored_world) = (''alpha'', None)"
proof -
  have sel: "fst (pg_select demo_env [4] stored_world) = Inr ''alpha''"
    by (simp add: pg_select_def demo_env_def stored_world_def Let_def)
  have rd: "cypher_read demo_env [4] (neo4j stored_world) = [''beta'']"
    by (simp add: cypher_read_def queryNodes_def demo_env_def stored_world_def)
  have drv: "neo4jDriver demo_env" "db_error demo_env (Neo4jRun (QueryNodes [4])) = None"
    by (simp_all add: demo_env_def)
  show ?thesis
    using SearchDocuments_merge [OF sel, of True "''beta''"]
          SearchDocuments_merge [OF sel, of False "''beta''"] rd drv
    by simp
qed

section \<open>A failing graph lookup\<close>

text \<open>
  C3. With graph expansion requested, a vector lookup that succeeds and a graph lookup
  that fails, the query should still succeed with the vector-only content. In the code,
  when \<^verbatim>\<open>session.Run\<close> of the index query fails, \<^verbatim>\<open>SearchDocuments\<close> hands back
  the vector content together with a non-nil error, and \<^verbatim>\<open>Query\<close>, which checks
  the error only, answers 500 without the content.
\<close>

theorem graph_lookup_failure_fails_query:
  assumes "3 \<le> length (TrimSpace query)"
      and "GetEmbedding env (TrimSpace query) w = ((q, None), w1)"
      and "fst (pg_select env q w1) = Inr A"
      and "neo4jDriver env"
      and "db_error env (Neo4jRun (QueryNodes q)) = Some e"
  shows "fst (SearchDocuments env q True w1)
           = (A, Some (''failed to search documents in Neo4j: '' @ e))
       \<and> fst (Query env (Bound query) True w)
           = JSON StatusInternalServerError
               [(''error'', JString (''Failed to search documents: ''
                   @ ''failed to search documents in Neo4j: '' @ e))]"
proof -
  obtain w2 where sel: "pg_select env q w1 = (Inr A, w2)"
    using assms(3) by (cases "pg_select env q w1") auto
  obtain w3 where sd: "SearchDocuments env q True w1
      = ((A, Some (''failed to search documents in Neo4j: '' @ e)), w3)"
    by (simp add: SearchDocuments_def sel session_Run_def Let_def assms(4) assms(5))
  show ?thesis
    using assms(1) by (simp add: Query_def Let_def assms(2) sd)
qed

theorem Query_graph_lookup_failure:
  "fst (SearchDocuments graph_down_env [5] True (record_call (HttpEmbed ''hello'') stored_world))
     = (''alpha'', Some ''failed to search documents in Neo4j: connection refused'')
   \<and> fst (Query graph_down_env (Bound ''hello'') True stored_world)
     = JSON StatusInternalServerError
         [(''error'', JString
            ''Failed to search documents: failed to search documents in Neo4j: connection refused'')]"
proof -
  let ?w1 = "record_call (HttpEmbed ''hello'') stored_world"
  have a1: "3 \<le> length (TrimSpace ''hello'')"
    by (simp add: TrimSpace_def TrimLeft.simps white_space_def)
  have a2: "GetEmbedding graph_down_env (TrimSpace ''hello'') stored_world = (([5], None), ?w1)"
    by (simp add: GetEmbedding_def graph_down_env_def demo_env_def TrimSpace_def TrimLeft.simps
        white_space_def Let_def)
  have a3: "fst (pg_select graph_down_env [5] ?w1) = Inr ''alpha''"
    by (simp add: pg_select_def graph_down_env_def demo_env_def stored_world_def Let_def)
  have a4: "neo4jDriver graph_down_env"
    by (simp add: graph_down_env_def demo_env_def)
  have a5: "db_error graph_down_env (Neo4jRun (QueryNodes [5])) = Some ''connection refused''"
    by (simp add: graph_down_env_def demo_env_def)
  show ?thesis
    using graph_lookup_failure_fails_query [OF a1 a2 a3 a4 a5] by simp
qed

section \<open>No graph backend\<close>

lemma AddDocument_no_driver:
  "\<not> neo4jDriver env \<Longrightarrow> snd (AddDocument env c e w) = snd (pg_insert env c e w)"
  by (simp add: AddDocument_def split: prod.splits sum.splits)

lemma goroutine_no_driver:
  assumes "\<not> neo4jDriver env"
  shows "neo4j (snd (goroutine env t st)) = neo4j (snd st)"
    and "neo4j_statements (calls (snd (goroutine env t st))) = neo4j_statements (calls (snd st))"
proof -
  obtain errs w where st: "st = (errs, w)" by (cases st)
  obtain v err w1 where ge: "GetEmbedding env t w = ((v, err), w1)"
    by (metis surj_pair)
  have w1: "neo4j w1 = neo4j w" "neo4j_statements (calls w1) = neo4j_statements (calls w)"
    using GetEmbedding_frame(3) [of env t w] GetEmbedding_frame(4) [of env t w] ge by simp_all
  obtain err2 w2 where ad: "AddDocument env t v w1 = (err2, w2)"
    by (cases "AddDocument env t v w1")
  have w2: "w2 = snd (pg_insert env t v w1)"
    using AddDocument_no_driver [OF assms, of t v w1] ad by simp
  show "neo4j (snd (goroutine env t st)) = neo4j (snd st)"
    by (simp add: goroutine_def st ge ad w1 w2 split: option.splits)
  show "neo4j_statements (calls (snd (goroutine env t st))) = neo4j_statements (calls (snd st))"
    by (simp add: goroutine_def st ge ad w1 w2 split: option.splits)
qed

lemma fold_goroutine_no_driver:
  assumes "\<not> neo4jDriver env"
  shows "neo4j (snd (fold (goroutine env) ts st)) = neo4j (snd st)
       \<and> neo4j_statements (calls (snd (fold (goroutine env) ts st)))
           = neo4j_statements (calls (snd st))"
  by (induction ts arbitrary: st) (simp_all add: goroutine_no_driver [OF assms])

lemma SearchDocuments_no_driver:
  "\<not> neo4jDriver env \<Longrightarrow> SearchDocuments env q True w = SearchDocuments env q False w"
  by (simp add: SearchDocuments_def split: prod.splits sum.splits)

text \<open>
  C6. When no Neo4j driver is configured, a query with graph expansion gives the same
  response and leaves the same state as the query without it, and neither batch
  ingestion nor an upload sends a statement to Neo4j or changes the graph.
\<close>

theorem no_graph_backend:
  assumes "\<not> neo4jDriver env"
  shows "Query env req True w = Query env req False w
       \<and> neo4j (snd (AddDocuments env batch w)) = neo4j w
       \<and> neo4j_statements (calls (snd (AddDocuments env batch w))) = neo4j_statements (calls w)
       \<and> neo4j (snd (UploadDocumentGin env up w)) = neo4j w
       \<and> neo4j_statements (calls (snd (UploadDocumentGin env up w))) = neo4j_statements (calls w)"
proof -
  have q: "Query env req True w = Query env req False w"
  proof (cases req)
    case (Bound query)
    obtain v err w1 where ge: "GetEmbedding env (TrimSpace query) w = ((v, err), w1)"
      by (metis surj_pair)
    show ?thesis
      by (simp add: Query_def Bound ge Let_def SearchDocuments_no_driver [OF assms])
  qed (simp add: Query_def)
  have a: "neo4j (snd (AddDocuments env batch w)) = neo4j w
       \<and> neo4j_statements (calls (snd (AddDocuments env batch w))) = neo4j_statements (calls w)"
    using fold_goroutine_no_driver [OF assms]
    by (simp add: AddDocuments_world split: binding.splits)
  have u: "neo4j (snd (UploadDocumentGin env up w)) = neo4j w
       \<and> neo4j_statements (calls (snd (UploadDocumentGin env up w))) = neo4j_statements (calls w)"
  proof (cases up)
    case (File content)
    obtain v err w1 where ge: "GetEmbedding env content w = ((v, err), w1)"
      by (metis surj_pair)
    have w1: "neo4j w1 = neo4j w" "neo4j_statements (calls w1) = neo4j_statements (calls w)"
      using GetEmbedding_frame(3) [of env content w] GetEmbedding_frame(4) [of env content w] ge
      by simp_all
    obtain err2 w2 where ad: "AddDocument env content v w1 = (err2, w2)"
      by (cases "AddDocument env content v w1")
    have w2: "w2 = snd (pg_insert env content v w1)"
      using AddDocument_no_driver [OF assms, of content v w1] ad by simp
    show ?thesis
      by (simp add: UploadDocumentGin_def File ge ad w1 w2 split: option.splits)
  qed (simp_all add: UploadDocumentGin_def)
  from q a u show ?thesis by simp
qed

theorem no_graph_backend_witness:
  "\<not> neo4jDriver vector_only_env
   \<and> Query vector_only_env (Bound ''hello'') True stored_world
       = Query vector_only_env (Bound ''hello'') False stored_world
   \<and> neo4j_statements (calls (snd (AddDocuments vector_only_env (Bound [''hello world'']) empty_world)))
       = []
   \<and> neo4j_statements (calls (snd (UploadDocumentGin vector_only_env (File ''hello world'') empty_world)))
       = []"
proof -
  have h: "\<not> neo4jDriver vector_only_env"
    by (simp add: vector_only_env_def demo_env_def)
  have e: "neo4j_statements (calls (empty_world :: nat world)) = []"
    by (simp add: empty_world_def)
  show ?thesis
    using h e no_graph_backend [OF h, of "Bound ''hello''" stored_world
                                 "Bound [''hello world'']" "File ''hello world''"]
          no_graph_backend [OF h, of "Bound ''hello''" empty_world
                                 "Bound [''hello world'']" "File ''hello world''"]
    by simp
qed

section \<open>A failing token\<close>

lemma token_loop_append:
  "token_loop env docID before w = (None, w') \<Longrightarrow>
   token_loop env docID (before @ rest) w = token_loop env docID rest w'"
proof (induction before arbitrary: w)
  case Nil
  then show ?case by simp
next
  case (Cons t ts)
  obtain v err w1 where ge: "GetEmbedding env t w = ((v, err), w1)"
    by (metis surj_pair)
  obtain err2 w2 where run: "session_Run env (MergeToken t v docID) w1 = (err2, w2)"
    by (cases "session_Run env (MergeToken t v docID) w1")
  from Cons.prems have "err = None" "err2 = None" "token_loop env docID ts w2 = (None, w')"
    by (auto simp: ge run split: if_splits)
  then show ?case
    using Cons.IH [of w2] by (simp add: ge run)
qed

lemma token_loop_stops:
  "token_loop env docID [token] w = (Some e, w') \<Longrightarrow>
   token_loop env docID (token # remaining) w = (Some e, w')"
  by (auto split: prod.splits if_splits)

text \<open>
  C7 as the code has it. When the embedding or the upsert of a token fails, after the
  tokens before it were upserted, \<^verbatim>\<open>AddTokenAndTriplets\<close> returns that error at
  once, in the state the failing step left: the remaining tokens and the triplets of the
  document are not processed. \<^verbatim>\<open>AddDocument\<close> returns the error and the goroutine
  of the document records it once.
\<close>

theorem token_failure_aborts:
  assumes "GetEmbedding env doc wa = ((embedding, None), wb)"
      and "pg_insert env doc embedding wb = (Inr docID, w)"
      and "neo4jDriver env"
      and "extractTokensAndTriplets env doc w = ((before @ token # remaining, triplets), w0)"
      and "session_Run env (MergeDocument docID doc) w0 = (None, w1)"
      and "token_loop env docID before w1 = (None, w2)"
      and "token_loop env docID [token] w2 = (Some e, w3)"
  shows "AddTokenAndTriplets env doc embedding docID w = (Some e, w3)
       \<and> goroutine env doc (errors, wa) = (errors @ [e], w3)"
proof -
  have "token_loop env docID (before @ token # remaining) w1 = (Some e, w3)"
    using token_loop_append [OF assms(6)] token_loop_stops [OF assms(7)] by simp
  then have a: "AddTokenAndTriplets env doc embedding docID w = (Some e, w3)"
    by (simp add: AddTokenAndTriplets_def assms(4) assms(5))
  then have "AddDocument env doc embedding wb = (Some e, w3)"
    by (simp add: AddDocument_def assms(2) assms(3))
  then have "goroutine env doc (errors, wa) = (errors @ [e], w3)"
    by (simp add: goroutine_def assms(1))
  with a show ?thesis by simp
qed

theorem token_failure_aborts_witness:
  "fst (goroutine token_fail_env ''beta alpha gamma'' ([], empty_world)) = [''status 503'']
   \<and> fst (AddTokenAndTriplets token_fail_env ''beta alpha gamma'' [16] 1
        (snd (pg_insert token_fail_env ''beta alpha gamma'' [16]
           (record_call (HttpEmbed ''beta alpha gamma'') empty_world)))) = Some ''status 503''"
proof -
  define wb where "wb = record_call (HttpEmbed ''beta alpha gamma'') (empty_world :: nat world)"
  define w where "w = snd (pg_insert token_fail_env ''beta alpha gamma'' [16] wb)"
  define w0 where "w0 = record_call (ExecExtract ''beta alpha gamma'') w"
  define w1 where "w1 = snd (session_Run token_fail_env (MergeDocument 1 ''beta alpha gamma'') w0)"
  define w2 where "w2 = snd (token_loop token_fail_env 1 [''beta''] w1)"
  define w3 where "w3 = snd (token_loop token_fail_env 1 [''alpha''] w2)"
  have a1: "GetEmbedding token_fail_env ''beta alpha gamma'' empty_world = (([16], None), wb)"
    by (simp add: GetEmbedding_def token_fail_env_def demo_env_def wb_def Let_def)
  have a2: "pg_insert token_fail_env ''beta alpha gamma'' [16] wb = (Inr 1, w)"
    by (simp add: w_def wb_def pg_insert_def token_fail_env_def demo_env_def empty_world_def
        Let_def)
  have a3: "neo4jDriver token_fail_env"
    by (simp add: token_fail_env_def demo_env_def)
  have a4: "extractTokensAndTriplets token_fail_env ''beta alpha gamma'' w
              = (([''beta''] @ ''alpha'' # [''gamma''], []), w0)"
    by (simp add: extractTokensAndTriplets_def token_fail_env_def demo_env_def w0_def Let_def)
  have a5: "session_Run token_fail_env (MergeDocument 1 ''beta alpha gamma'') w0 = (None, w1)"
    by (simp add: w1_def session_Run_def token_fail_env_def demo_env_def Let_def)
  have a6: "token_loop token_fail_env 1 [''beta''] w1 = (None, w2)"
    by (simp add: w2_def session_Run_def GetEmbedding_def token_fail_env_def demo_env_def Let_def)
  have a7: "token_loop token_fail_env 1 [''alpha''] w2 = (Some ''status 503'', w3)"
    by (simp add: w3_def GetEmbedding_def token_fail_env_def demo_env_def Let_def)
  show ?thesis
    using token_failure_aborts [OF a1 a2 a3 a4 a5 a6 a7, of "[]"]
    by (simp add: w_def wb_def)
qed

text \<open>
  C7 as the claim states it fails: for the one-document batch \<open>alpha beta\<close>, whose
  tokens are \<open>alpha\<close> and \<open>beta\<close>, and an embedding endpoint that fails for
  \<open>alpha\<close>, the document is reported as failed and \<open>beta\<close> is neither embedded
  nor upserted.
\<close>

theorem remaining_tokens_counterexample:
  "fst (AddDocuments token_fail_env (Bound [''alpha beta'']) empty_world)
     = JSON StatusInternalServerError
         [(''error'', JString ''Failed to process some documents''),
          (''details'', JStrings [''status 503''])]
   \<and> token_embedding
        (neo4j (snd (AddDocuments token_fail_env (Bound [''alpha beta'']) empty_world)))
        ''beta'' = None
   \<and> calls (snd (AddDocuments token_fail_env (Bound [''alpha beta'']) empty_world))
       = [HttpEmbed ''alpha beta'', PgInsert ''alpha beta'' [10], ExecExtract ''alpha beta'',
          Neo4jRun (MergeDocument 1 ''alpha beta''), HttpEmbed ''alpha'']"
  by (simp add: AddDocuments_def goroutine_def AddDocument_def pg_insert_def
      AddTokenAndTriplets_def extractTokensAndTriplets_def session_Run_def
      GetEmbedding_def token_fail_env_def demo_env_def empty_world_def empty_graph_def
      record_call_def token_embedding_def TrimSpace_def TrimLeft.simps white_space_def Let_def)

section \<open>Triplets whose embeddings fail\<close>

lemma GetEmbedding_value: "fst (fst (GetEmbedding env t w)) = embedding_or_nil env t"
  by (simp add: GetEmbedding_def embedding_or_nil_def Let_def split: sum.splits)

lemma GetEmbedding_failed_nil:
  "snd (fst (GetEmbedding env t w)) \<noteq> None \<Longrightarrow> embedding_or_nil env t = []"
  by (auto simp: GetEmbedding_def embedding_or_nil_def Let_def split: sum.splits if_splits)

lemma session_Run_ok:
  "db_error env (Neo4jRun q) = None \<Longrightarrow>
   session_Run env q w = (None, (record_call (Neo4jRun q) w)\<lparr>neo4j := cypher_write q (neo4j w)\<rparr>)"
  by (simp add: session_Run_def Let_def)

lemma triplet_loop_Cons:
  "triplet_loop env (t # rest) w =
     (case session_Run env (triplet_statement env t)
             (snd (GetEmbedding env (Object t)
                (snd (GetEmbedding env (Predicate t) (snd (GetEmbedding env (Subject t) w)))))) of
        (err, w4) \<Rightarrow> if err \<noteq> None then (err, w4) else triplet_loop env rest w4)"
proof -
  obtain v1 e1 w1 where g1: "GetEmbedding env (Subject t) w = ((v1, e1), w1)"
    by (metis surj_pair)
  obtain v2 e2 w2 where g2: "GetEmbedding env (Predicate t) w1 = ((v2, e2), w2)"
    by (metis surj_pair)
  obtain v3 e3 w3 where g3: "GetEmbedding env (Object t) w2 = ((v3, e3), w3)"
    by (metis surj_pair)
  have "v1 = embedding_or_nil env (Subject t)" "v2 = embedding_or_nil env (Predicate t)"
       "v3 = embedding_or_nil env (Object t)"
    using GetEmbedding_value [of env "Subject t" w] GetEmbedding_value [of env "Predicate t" w1]
      GetEmbedding_value [of env "Object t" w2] g1 g2 g3 by simp_all
  then show ?thesis
    by (simp add: g1 g2 g3 triplet_statement_def)
qed

lemma triplet_loop_ok:
  assumes "\<forall>t \<in> set triplets. db_error env (Neo4jRun (triplet_statement env t)) = None"
  shows "fst (triplet_loop env triplets w) = None
       \<and> neo4j (snd (triplet_loop env triplets w))
           = fold cypher_write (map (triplet_statement env) triplets) (neo4j w)
       \<and> neo4j_statements (calls (snd (triplet_loop env triplets w)))
           = neo4j_statements (calls w) @ map (triplet_statement env) triplets"
  using assms
proof (induction triplets arbitrary: w)
  case Nil
  then show ?case by simp
next
  case (Cons t ts)
  then have ok: "db_error env (Neo4jRun (triplet_statement env t)) = None"
    and rest: "\<forall>t \<in> set ts. db_error env (Neo4jRun (triplet_statement env t)) = None"
    by simp_all
  show ?case
    using Cons.IH [OF rest]
    by (simp add: triplet_loop_Cons session_Run_ok [OF ok] del: triplet_loop.simps)
qed

lemma predicate_embedding_merge_predicate:
  "predicate_embedding (merge_predicate s p ob e g) k =
     (case predicate_embedding g k of Some u \<Rightarrow> Some u
      | None \<Rightarrow> if k = (s, p, ob) then Some e else None)"
proof (cases "(s, p, ob) \<in> fst ` set (PREDICATE g)")
  case True
  then have "map_of (PREDICATE g) (s, p, ob) \<noteq> None"
    by (simp add: map_of_eq_None_iff)
  with True show ?thesis
    by (auto simp: merge_predicate_def predicate_embedding_def split: option.splits)
next
  case False
  then show ?thesis
    by (simp add: merge_predicate_def predicate_embedding_def map_add_def split: option.splits)
qed

lemma PREDICATE_merge_token [simp]: "PREDICATE (merge_token n e g) = PREDICATE g"
  by (simp add: merge_token_def)

lemma PREDICATE_merge_contains [simp]: "PREDICATE (merge_contains n d g) = PREDICATE g"
  by (simp add: merge_contains_def)

lemma PREDICATE_fold_merge_contains [simp]:
  "PREDICATE (fold (merge_contains n) ds g) = PREDICATE g"
  by (induction ds arbitrary: g) simp_all

lemma predicate_embedding_cong:
  "PREDICATE g = PREDICATE g' \<Longrightarrow> predicate_embedding g = predicate_embedding g'"
  by (simp add: predicate_embedding_def fun_eq_iff)

lemma predicate_embedding_kept:
  "predicate_embedding g k = Some u \<Longrightarrow> predicate_embedding (cypher_write q g) k = Some u"
proof (cases q)
  case (MergeDocument d c)
  assume "predicate_embedding g k = Some u"
  then show ?thesis by (simp add: MergeDocument predicate_embedding_def)
next
  case (MergeToken n e d)
  assume "predicate_embedding g k = Some u"
  then show ?thesis
    by (simp add: MergeToken Let_def predicate_embedding_def)
next
  case (MergeTriplet s se p pe ob oe)
  assume "predicate_embedding g k = Some u"
  then show ?thesis
    by (simp add: MergeTriplet predicate_embedding_merge_predicate
        predicate_embedding_cong [OF PREDICATE_merge_token])
next
  case (QueryNodes e)
  assume "predicate_embedding g k = Some u"
  then show ?thesis by (simp add: QueryNodes)
qed

lemma predicate_embedding_fold_kept:
  "predicate_embedding g k = Some u \<Longrightarrow> predicate_embedding (fold cypher_write qs g) k = Some u"
  by (induction qs arbitrary: g) (simp_all add: predicate_embedding_kept)

lemma predicate_embedding_fold_triplets:
  "t \<in> set triplets \<Longrightarrow>
   predicate_embedding (fold cypher_write (map (triplet_statement env) triplets) g)
     (Subject t, Predicate t, Object t) \<noteq> None"
proof (induction triplets arbitrary: g)
  case Nil
  then show ?case by simp
next
  case (Cons a ts)
  show ?case
  proof (cases "t = a")
    case True
    obtain u where "predicate_embedding (cypher_write (triplet_statement env a) g)
            (Subject a, Predicate a, Object a) = Some u"
      by (cases "predicate_embedding (merge_token (Object a) (embedding_or_nil env (Object a))
             (merge_token (Subject a) (embedding_or_nil env (Subject a)) g))
             (Subject a, Predicate a, Object a)")
         (simp_all add: triplet_statement_def predicate_embedding_merge_predicate)
    then show ?thesis
      using True by (simp add: predicate_embedding_fold_kept)
  next
    case False
    with Cons.prems have "t \<in> set ts" by simp
    then show ?thesis using Cons.IH by simp
  qed
qed

text \<open>
  C8. Once the document node and the tokens are written, the triplet loop ignores the
  error of every embedding call: whatever the embedding endpoint answers, as long as
  Neo4j accepts the statements, \<^verbatim>\<open>AddTokenAndTriplets\<close> returns no error, it has
  sent one triplet statement per triplet, in order, on top of the graph the token loop
  left, every triplet has its \<^verbatim>\<open>PREDICATE\<close> relationship, and the embedding passed
  for a field is what \<^verbatim>\<open>GetEmbedding\<close> returned, which is the \<^verbatim>\<open>nil\<close> slice when
  the call failed.
\<close>

theorem triplet_embedding_failures_tolerated:
  assumes "extractTokensAndTriplets env content w = ((tokens, triplets), w0)"
      and "session_Run env (MergeDocument docID content) w0 = (None, w1)"
      and "token_loop env docID tokens w1 = (None, w2)"
      and "\<forall>t \<in> set triplets. db_error env (Neo4jRun (triplet_statement env t)) = None"
  shows "fst (AddTokenAndTriplets env content embedding docID w) = None
       \<and> neo4j_statements (calls (snd (AddTokenAndTriplets env content embedding docID w)))
           = neo4j_statements (calls w2) @ map (triplet_statement env) triplets
       \<and> neo4j (snd (AddTokenAndTriplets env content embedding docID w))
           = fold cypher_write (map (triplet_statement env) triplets) (neo4j w2)
       \<and> (\<forall>t \<in> set triplets.
             predicate_embedding (neo4j (snd (AddTokenAndTriplets env content embedding docID w)))
               (Subject t, Predicate t, Object t) \<noteq> None)
       \<and> (\<forall>field w'. fst (fst (GetEmbedding env field w')) = embedding_or_nil env field
             \<and> (snd (fst (GetEmbedding env field w')) \<noteq> None
                  \<longrightarrow> embedding_or_nil env field = []))"
proof -
  have eq: "AddTokenAndTriplets env content embedding docID w = triplet_loop env triplets w2"
    by (simp add: AddTokenAndTriplets_def assms(1) assms(2) assms(3))
  show ?thesis
    using triplet_loop_ok [OF assms(4), of w2]
      predicate_embedding_fold_triplets [of _ triplets env "neo4j w2"]
    by (simp add: eq GetEmbedding_value GetEmbedding_failed_nil)
qed

theorem triplet_embedding_failures_tolerated_witness:
  "snd (fst (GetEmbedding triplet_env ''is'' empty_world)) \<noteq> None
   \<and> fst (AddTokenAndTriplets triplet_env ''go is fast'' [10] 1 empty_world) = None
   \<and> predicate_embedding
        (neo4j (snd (AddTokenAndTriplets triplet_env ''go is fast'' [10] 1 empty_world)))
        (''go'', ''is'', ''fast'') = Some []"
proof -
  define t where "t = \<lparr>Subject = ''go'', Predicate = ''is'', Object = ''fast''\<rparr>"
  define w0 where "w0 = record_call (ExecExtract ''go is fast'') (empty_world :: nat world)"
  define w1 where "w1 = snd (session_Run triplet_env (MergeDocument 1 ''go is fast'') w0)"
  define w2 where "w2 = snd (token_loop triplet_env 1 [''go'', ''fast''] w1)"
  have a1: "extractTokensAndTriplets triplet_env ''go is fast'' empty_world
              = (([''go'', ''fast''], [t]), w0)"
    by (simp add: extractTokensAndTriplets_def triplet_env_def demo_env_def Let_def t_def w0_def)
  have a2: "session_Run triplet_env (MergeDocument 1 ''go is fast'') w0 = (None, w1)"
    by (simp add: w1_def session_Run_def triplet_env_def demo_env_def Let_def)
  have a3: "token_loop triplet_env 1 [''go'', ''fast''] w1 = (None, w2)"
    by (simp add: w2_def session_Run_def GetEmbedding_def triplet_env_def demo_env_def Let_def)
  have a4: "\<forall>t \<in> set [t]. db_error triplet_env (Neo4jRun (triplet_statement triplet_env t)) = None"
    by (simp add: triplet_env_def demo_env_def)
  have g: "neo4j w2 = \<lparr>Documents = [(1, ''go is fast'')], Tokens = [(''go'', [2]), (''fast'', [4])],
      CONTAINS = [(''go'', 1, ''go is fast''), (''fast'', 1, ''go is fast'')], PREDICATE = []\<rparr>"
    by (simp add: w2_def w1_def w0_def session_Run_def GetEmbedding_def triplet_env_def
        demo_env_def Let_def empty_world_def empty_graph_def merge_token_def merge_contains_def
        record_call_def)
  have f: "snd (fst (GetEmbedding triplet_env ''is'' empty_world)) \<noteq> None"
    by (simp add: GetEmbedding_def triplet_env_def demo_env_def Let_def)
  have st: "triplet_statement triplet_env t = MergeTriplet ''go'' [2] ''is'' [] ''fast'' [4]"
    by (simp add: t_def triplet_statement_def embedding_or_nil_def triplet_env_def demo_env_def)
  show ?thesis
    using f triplet_embedding_failures_tolerated [OF a1 a2 a3 a4, of "[10]"]
    by (simp add: g st merge_token_def merge_predicate_def predicate_embedding_def)
qed

section \<open>Token nodes keep their first embedding\<close>

lemma token_embedding_merge_token:
  "token_embedding (merge_token n e g) m =
     (case token_embedding g m of Some u \<Rightarrow> Some u | None \<Rightarrow> if m = n then Some e else None)"
proof (cases "n \<in> fst ` set (Tokens g)")
  case True
  then have "map_of (Tokens g) n \<noteq> None"
    by (simp add: map_of_eq_None_iff)
  with True show ?thesis
    by (auto simp: merge_token_def token_embedding_def split: option.splits)
next
  case False
  then show ?thesis
    by (simp add: merge_token_def token_embedding_def map_add_def split: option.splits)
qed

lemma Tokens_merge_contains [simp]: "Tokens (merge_contains n d g) = Tokens g"
  by (simp add: merge_contains_def)

lemma Tokens_fold_merge_contains [simp]: "Tokens (fold (merge_contains n) ds g) = Tokens g"
  by (induction ds arbitrary: g) simp_all

lemma Tokens_merge_predicate [simp]: "Tokens (merge_predicate s p ob e g) = Tokens g"
  by (simp add: merge_predicate_def)

lemma token_embedding_cong: "Tokens g = Tokens g' \<Longrightarrow> token_embedding g = token_embedding g'"
  by (simp add: token_embedding_def fun_eq_iff)

lemma token_embedding_kept:
  "token_embedding g m = Some u \<Longrightarrow> token_embedding (cypher_write q g) m = Some u"
proof (cases q)
  case (MergeDocument d c)
  assume "token_embedding g m = Some u"
  then show ?thesis
    by (simp add: MergeDocument token_embedding_def)
next
  case (MergeToken n e d)
  assume "token_embedding g m = Some u"
  then show ?thesis
    by (simp add: MergeToken Let_def token_embedding_merge_token
        token_embedding_cong [OF Tokens_fold_merge_contains])
next
  case (MergeTriplet s se p pe ob oe)
  assume "token_embedding g m = Some u"
  then show ?thesis
    by (simp add: MergeTriplet token_embedding_merge_token
        token_embedding_cong [OF Tokens_merge_predicate])
next
  case (QueryNodes e)
  assume "token_embedding g m = Some u"
  then show ?thesis by (simp add: QueryNodes)
qed

lemma token_embedding_after_MergeToken:
  "token_embedding (cypher_write (MergeToken n e d) g) n =
     (case token_embedding g n of Some u \<Rightarrow> Some u | None \<Rightarrow> Some e)"
  by (simp add: Let_def token_embedding_merge_token
      token_embedding_cong [OF Tokens_fold_merge_contains] split: option.splits)

lemma token_embedding_after_subject:
  "token_embedding (cypher_write (MergeTriplet n e p pe ob oe) g) n =
     (case token_embedding g n of Some u \<Rightarrow> Some u | None \<Rightarrow> Some e)"
  by (simp add: token_embedding_merge_token
      token_embedding_cong [OF Tokens_merge_predicate] split: option.splits)

lemma token_embedding_after_object:
  "s \<noteq> n \<Longrightarrow> token_embedding (cypher_write (MergeTriplet s se p pe n e) g) n =
     (case token_embedding g n of Some u \<Rightarrow> Some u | None \<Rightarrow> Some e)"
  by (simp add: token_embedding_merge_token
      token_embedding_cong [OF Tokens_merge_predicate] split: option.splits)

lemma session_Run_token_kept:
  "token_embedding (neo4j w) m = Some u \<Longrightarrow>
   token_embedding (neo4j (snd (session_Run env q w))) m = Some u"
  by (simp add: session_Run_def Let_def token_embedding_kept split: option.splits)

lemma token_loop_token_kept:
  "token_embedding (neo4j w) m = Some u \<Longrightarrow>
   token_embedding (neo4j (snd (token_loop env docID tokens w))) m = Some u"
proof (induction tokens arbitrary: w)
  case Nil
  then show ?case by simp
next
  case (Cons t ts)
  obtain v err w1 where ge: "GetEmbedding env t w = ((v, err), w1)"
    by (metis surj_pair)
  have w1: "token_embedding (neo4j w1) m = Some u"
    using GetEmbedding_frame(3) [of env t w] ge Cons.prems by simp
  obtain err2 w2 where run: "session_Run env (MergeToken t v docID) w1 = (err2, w2)"
    by (cases "session_Run env (MergeToken t v docID) w1")
  have w2: "token_embedding (neo4j w2) m = Some u"
    using session_Run_token_kept [OF w1, of env "MergeToken t v docID"] run by simp
  show ?case
    using Cons.IH [OF w2] w1 w2 by (simp add: ge run)
qed

lemma triplet_loop_token_kept:
  "token_embedding (neo4j w) m = Some u \<Longrightarrow>
   token_embedding (neo4j (snd (triplet_loop env triplets w))) m = Some u"
proof (induction triplets arbitrary: w)
  case Nil
  then show ?case by simp
next
  case (Cons t ts)
  let ?w3 = "snd (GetEmbedding env (Object t)
                (snd (GetEmbedding env (Predicate t) (snd (GetEmbedding env (Subject t) w)))))"
  have w3: "token_embedding (neo4j ?w3) m = Some u"
    using Cons.prems by simp
  obtain err w4 where run: "session_Run env (triplet_statement env t) ?w3 = (err, w4)"
    by (cases "session_Run env (triplet_statement env t) ?w3")
  have w4: "token_embedding (neo4j w4) m = Some u"
    using session_Run_token_kept [OF w3, of env "triplet_statement env t"] run by simp
  show ?case
    using Cons.IH [OF w4] w4 by (simp add: triplet_loop_Cons run del: triplet_loop.simps)
qed

lemma AddTokenAndTriplets_token_kept:
  assumes "token_embedding (neo4j w) m = Some u"
  shows "token_embedding (neo4j (snd (AddTokenAndTriplets env content embedding docID w))) m = Some u"
proof -
  obtain tokens triplets w0
    where ex: "extractTokensAndTriplets env content w = ((tokens, triplets), w0)"
    by (metis surj_pair)
  have "neo4j w0 = neo4j w"
    using ex by (auto simp: extractTokensAndTriplets_def Let_def split: option.splits)
  then have w0: "token_embedding (neo4j w0) m = Some u"
    using assms by simp
  obtain err w1 where run: "session_Run env (MergeDocument docID content) w0 = (err, w1)"
    by (cases "session_Run env (MergeDocument docID content) w0")
  have w1: "token_embedding (neo4j w1) m = Some u"
    using session_Run_token_kept [OF w0, of env "MergeDocument docID content"] run by simp
  obtain err2 w2 where tl: "token_loop env docID tokens w1 = (err2, w2)"
    by (cases "token_loop env docID tokens w1")
  have w2: "token_embedding (neo4j w2) m = Some u"
    using token_loop_token_kept [OF w1, of env docID tokens] tl by simp
  have w3: "token_embedding (neo4j (snd (triplet_loop env triplets w2))) m = Some u"
    using w2 by (rule triplet_loop_token_kept)
  show ?thesis
    using w1 w2 w3 by (simp add: AddTokenAndTriplets_def ex run tl)
qed

lemma token_loop_first:
  assumes "token_loop env docID [name] w = (None, w1)"
  shows "token_embedding (neo4j w1) name =
           (case token_embedding (neo4j w) name of
              Some e0 \<Rightarrow> Some e0 | None \<Rightarrow> Some (embedding_or_nil env name))"
proof -
  obtain v err wa where ge: "GetEmbedding env name w = ((v, err), wa)"
    by (metis surj_pair)
  have v: "v = embedding_or_nil env name" "neo4j wa = neo4j w"
    using GetEmbedding_value [of env name w] GetEmbedding_frame(3) [of env name w] ge by simp_all
  obtain err2 wb where run: "session_Run env (MergeToken name v docID) wa = (err2, wb)"
    by (cases "session_Run env (MergeToken name v docID) wa")
  from assms have "err = None" "err2 = None" "wb = w1"
    by (auto simp: ge run split: if_splits)
  then have "neo4j w1 = cypher_write (MergeToken name v docID) (neo4j w)"
    using run v(2) by (auto simp: session_Run_def Let_def split: option.splits)
  then show ?thesis
    by (simp only: token_embedding_after_MergeToken v(1))
qed

lemma triplet_loop_first:
  assumes "triplet_loop env [t] w = (None, w1)"
      and "Subject t = name \<or> Object t = name"
  shows "token_embedding (neo4j w1) name =
           (case token_embedding (neo4j w) name of
              Some e0 \<Rightarrow> Some e0 | None \<Rightarrow> Some (embedding_or_nil env name))"
proof -
  let ?w3 = "snd (GetEmbedding env (Object t)
                (snd (GetEmbedding env (Predicate t) (snd (GetEmbedding env (Subject t) w)))))"
  have w3: "neo4j ?w3 = neo4j w" by simp
  obtain err w4 where run: "session_Run env (triplet_statement env t) ?w3 = (err, w4)"
    by (cases "session_Run env (triplet_statement env t) ?w3")
  from assms(1) have "err = None" "w4 = w1"
    by (auto simp: triplet_loop_Cons run simp del: triplet_loop.simps(2) split: if_splits)
  then have g: "neo4j w1 = cypher_write (triplet_statement env t) (neo4j w)"
    using run w3 by (auto simp: session_Run_def Let_def split: option.splits)
  show ?thesis
  proof (cases "Subject t = name")
    case True
    then show ?thesis
      unfolding g triplet_statement_def by (simp only: token_embedding_after_subject)
  next
    case False
    with assms(2) have "Object t = name" by simp
    with False show ?thesis
      unfolding g triplet_statement_def
      by (simp add: token_embedding_after_object del: cypher_write.simps)
  qed
qed

text \<open>
  C5. Let a first upsert of a Token name succeed, by the token loop of
  \<^verbatim>\<open>AddTokenAndTriplets\<close> or by its triplet loop with the name as subject or
  object. The graph then holds the embedding computed for the name when the name was
  new, and the embedding it held before otherwise. Whatever is ingested afterwards,
  with any other embedding endpoint, by the token loop, by the triplet loop or by a
  whole \<^verbatim>\<open>AddTokenAndTriplets\<close>, the stored embedding of the name stays as the first
  upsert left it.
\<close>

theorem token_first_write_wins:
  assumes "token_loop env1 d1 [name] w = (None, w1)
         \<or> (triplet_loop env1 [t1] w = (None, w1) \<and> (Subject t1 = name \<or> Object t1 = name))"
  shows "token_embedding (neo4j w1) name =
           (case token_embedding (neo4j w) name of
              Some e0 \<Rightarrow> Some e0 | None \<Rightarrow> Some (embedding_or_nil env1 name))
       \<and> token_embedding (neo4j (snd (token_loop env2 d2 tokens w1))) name
           = token_embedding (neo4j w1) name
       \<and> token_embedding (neo4j (snd (triplet_loop env2 triplets w1))) name
           = token_embedding (neo4j w1) name
       \<and> token_embedding (neo4j (snd (AddTokenAndTriplets env2 content embedding d2 w1))) name
           = token_embedding (neo4j w1) name"
proof -
  have stored: "token_embedding (neo4j w1) name =
           (case token_embedding (neo4j w) name of
              Some e0 \<Rightarrow> Some e0 | None \<Rightarrow> Some (embedding_or_nil env1 name))"
    using assms token_loop_first triplet_loop_first by blast
  then obtain u where u: "token_embedding (neo4j w1) name = Some u"
    by (cases "token_embedding (neo4j w) name") auto
  show ?thesis
    using stored u token_loop_token_kept [OF u, of env2 d2 tokens]
      triplet_loop_token_kept [OF u, of env2 triplets]
      AddTokenAndTriplets_token_kept [OF u, of env2 content embedding d2]
    by simp
qed

theorem token_first_write_wins_witness:
  "token_embedding (neo4j (snd (token_loop demo_env 1 [''go''] empty_world))) ''go'' = Some [2]
   \<and> embedding_or_nil other_env ''go'' = [99]
   \<and> token_embedding (neo4j (snd (token_loop other_env 2 [''go'']
        (snd (token_loop demo_env 1 [''go''] empty_world))))) ''go'' = Some [2]
   \<and> token_embedding (neo4j (snd (triplet_loop other_env
        [\<lparr>Subject = ''go'', Predicate = ''is'', Object = ''fast''\<rparr>,
         \<lparr>Subject = ''rust'', Predicate = ''beats'', Object = ''go''\<rparr>]
        (snd (token_loop demo_env 1 [''go''] empty_world))))) ''go'' = Some [2]"
proof -
  define w1 where "w1 = snd (token_loop demo_env 1 [''go''] (empty_world :: nat world))"
  have a: "token_loop demo_env 1 [''go''] empty_world = (None, w1)"
    by (simp add: w1_def session_Run_def GetEmbedding_def demo_env_def Let_def)
  have e: "token_embedding (neo4j (empty_world :: nat world)) ''go'' = None"
    by (simp add: token_embedding_def empty_world_def empty_graph_def)
  have v: "embedding_or_nil demo_env ''go'' = [2]" "embedding_or_nil other_env ''go'' = [99]"
    by (simp_all add: embedding_or_nil_def other_env_def demo_env_def)
  note r = token_first_write_wins [OF disjI1 [OF a], of other_env 2 "[''go'']"
        "[\<lparr>Subject = ''go'', Predicate = ''is'', Object = ''fast''\<rparr>,
          \<lparr>Subject = ''rust'', Predicate = ''beats'', Object = ''go''\<rparr>]" "[]" "[]"]
  show ?thesis
    unfolding w1_def [symmetric]
    using r e v by (simp del: token_loop.simps triplet_loop.simps)
qed

section \<open>Every graph document has its row\<close>

lemma Documents_merge_token [simp]: "Documents (merge_token n e g) = Documents g"
  by (simp add: merge_token_def)

lemma Documents_merge_contains [simp]: "Documents (merge_contains n d g) = Documents g"
  by (simp add: merge_contains_def)

lemma Documents_fold_merge_contains [simp]:
  "Documents (fold (merge_contains n) ds g) = Documents g"
  by (induction ds arbitrary: g) simp_all

lemma Documents_merge_predicate [simp]: "Documents (merge_predicate s p ob e g) = Documents g"
  by (simp add: merge_predicate_def)




















section \<open>Batches\<close>



lemma launch_rejected:
  "snd (launch docs) \<longleftrightarrow> (\<exists>d \<in> set docs. length (TrimSpace d) < 5)"
  by (induction docs) (auto simp: Let_def split: prod.splits)


lemma failure_enter [simp]:
  "failure (enter_triplets triplets) = []"
  "failure (enter_tokens docID tokens triplets) = []"
  by (simp_all add: enter_triplets_def enter_tokens_def split: list.splits)


lemma failures_split [simp]:
  "failures (before @ g # after) = failures before @ failure (snd g) @ failures after"
  by (simp add: failures_def)



lemma failures_Start [simp]: "failures (map (\<lambda>doc. (doc, Start)) docs) = []"
  by (induction docs) (simp_all add: failures_def)















subsection \<open>Every schedule ends\<close>


lemma work_enter_triplets: "work (enter_triplets triplets :: 'f pc) \<le> 4 * length triplets + 1"
  by (cases triplets) (simp_all add: enter_triplets_def)

lemma stage_enter [simp]:
  "stage (enter_triplets triplets) = 0"
  "stage (enter_tokens docID tokens triplets) = 0"
  by (simp_all add: enter_triplets_def enter_tokens_def split: list.splits)

lemma work_enter_tokens:
  "work (enter_tokens docID tokens triplets :: 'f pc) \<le> 2 * length tokens + 4 * length triplets + 2"
proof (cases tokens)
  case Nil
  then show ?thesis
    using work_enter_triplets [of triplets, where 'f = 'f] by (simp add: enter_tokens_def)
next
  case (Cons t rest)
  then show ?thesis by (simp add: enter_tokens_def)
qed

lemma advance_nearer:
  assumes "\<not> finished pc" and "advance env doc pc st = (pc', st')"
  shows "stage pc' < stage pc \<or> (stage pc' = stage pc \<and> work pc' < work pc)"
proof -
  obtain errors w where st: "st = (errors, w)" by (cases st)
  note t = work_enter_triplets [where 'f = 'a] work_enter_tokens [where 'f = 'a]
  show ?thesis
  proof (cases pc)
    case (Extracted docID tokens triplets)
    with assms st t(2) [of docID tokens triplets] show ?thesis
      by (auto split: prod.splits option.splits)
  next
    case (TokenEmbedded docID v token rest triplets)
    with assms st t(2) [of docID rest triplets] show ?thesis
      by (auto split: prod.splits option.splits)
  next
    case (TripletSPO s p ob triplet rest)
    with assms st t(1) [of rest] show ?thesis
      by (auto split: prod.splits option.splits)
  qed (use assms st in \<open>auto split: prod.splits option.splits sum.splits if_splits\<close>)
qed

lemma step_nearer:
  assumes "step env c c'"
  shows "(distance c', distance c) \<in> less_than <*lex*> less_than"
  using assms
proof (cases rule: step.cases)
  case (move env' pc doc st pc' st' before after)
  from advance_nearer [OF move(4) move(5)] move(1) move(2) show ?thesis
    by (auto simp: distance_def)
qed

lemma schedules_end: "wf {(c', c). step env c c'}"
proof (rule wf_subset)
  show "wf (inv_image (less_than <*lex*> less_than) distance)"
    by (intro wf_inv_image wf_lex_prod wf_less_than)
  show "{(c', c). step env c c'} \<subseteq> inv_image (less_than <*lex*> less_than) distance"
    using step_nearer by (auto simp: inv_image_def)
qed

lemma unfinished_moves:
  assumes "g \<in> set pool" and "\<not> finished (snd g)"
  shows "\<exists>c'. step env (pool, st) c'"
proof -
  from assms(1) obtain before after where pool: "pool = before @ g # after"
    by (auto dest: split_list)
  obtain doc pc where g: "g = (doc, pc)" by (cases g)
  obtain pc' st' where "advance env doc pc st = (pc', st')"
    by (cases "advance env doc pc st")
  with assms(2) g have "step env (before @ (doc, pc) # after, st) (before @ (doc, pc') # after, st')"
    by (intro step.move [of env env]) (simp_all add: same_process_def)
  then show ?thesis
    unfolding pool g by (rule exI)
qed


subsection \<open>Two runs\<close>



section \<open>Texts that are too short\<close>

text \<open>
  C4 as the code has it. A batch with a document whose trimmed text is shorter than
  5 bytes is answered with the 400 validation error. A query whose trimmed text is
  shorter than 3 bytes is answered with the 400 validation error and the state,
  with its record of calls, is unchanged: no store was touched and no external call
  made.
\<close>

theorem short_input_rejected:
  "((\<exists>d \<in> set docs. length (TrimSpace d) < 5) \<longrightarrow>
      fst (AddDocuments env (Bound docs) w) =
        JSON StatusBadRequest
          [(''error'', JString ''Document text must be at least 5 characters long'')])
   \<and> (length (TrimSpace query) < 3 \<longrightarrow>
      Query env (Bound query) useGraph w =
        (JSON StatusBadRequest [(''error'', JString ''Query must be at least 3 characters long'')],
         w))"
proof -
  have "fst (AddDocuments env (Bound docs) w) =
        JSON StatusBadRequest
          [(''error'', JString ''Document text must be at least 5 characters long'')]"
    if "\<exists>d \<in> set docs. length (TrimSpace d) < 5"
  proof -
    from that have "docs \<noteq> []" by auto
    moreover from that obtain started where "launch docs = (started, True)"
      using launch_rejected [of docs] by (cases "launch docs") auto
    moreover obtain errors w' where "fold (goroutine env) started ([], w) = (errors, w')"
      by (cases "fold (goroutine env) started ([], w)")
    ultimately show ?thesis
      by (simp add: AddDocuments_def)
  qed
  then show ?thesis
    by (simp add: Query_def Let_def)
qed

theorem short_input_rejected_witness:
  "fst (AddDocuments demo_env (Bound [''hello world'', '' hi '']) stored_world) =
        JSON StatusBadRequest
          [(''error'', JString ''Document text must be at least 5 characters long'')]
   \<and> Query demo_env (Bound '' go '') True stored_world =
        (JSON StatusBadRequest [(''error'', JString ''Query must be at least 3 characters long'')],
         stored_world)"
proof -
  have "length (TrimSpace '' hi '') < 5"
    by (simp add: TrimSpace_def TrimLeft.simps white_space_def)
  then have a: "\<exists>d \<in> set [''hello world'', '' hi '']. length (TrimSpace d) < 5"
    by simp
  have b: "length (TrimSpace '' go '') < 3"
    by (simp add: TrimSpace_def TrimLeft.simps white_space_def)
  show ?thesis
    using a b short_input_rejected [of "[''hello world'', '' hi '']" demo_env stored_world "'' go ''" True]
    by simp
qed

text \<open>
  C4 as the claim states it fails. The query \<open>abcd\<close> is shorter than 5 and is
  answered after an embedding call, a table lookup and a generation call. In the batch
  \<open>hello world\<close>, \<open>hi\<close> the goroutine of the first document was started before
  the second was checked: the batch is answered with 400 and the first document is
  embedded and inserted all the same.
\<close>

theorem short_input_counterexample:
  "length (TrimSpace ''abcd'') < 5
   \<and> fst (Query demo_env (Bound ''abcd'') False stored_world)
       = JSON StatusOK [(''response'', JString ''alpha'')]
   \<and> calls (snd (Query demo_env (Bound ''abcd'') False stored_world))
       = [HttpEmbed ''abcd'', PgSelect [4], HttpGenerate ''abcd'' ''alpha'']
   \<and> length (TrimSpace ''hi'') < 5
   \<and> fst (AddDocuments vector_only_env (Bound [''hello world'', ''hi'']) empty_world)
       = JSON StatusBadRequest
           [(''error'', JString ''Document text must be at least 5 characters long'')]
   \<and> documents (snd (AddDocuments vector_only_env (Bound [''hello world'', ''hi'']) empty_world))
       = [(1, ''hello world'', [11])]
   \<and> calls (snd (AddDocuments vector_only_env (Bound [''hello world'', ''hi'']) empty_world))
       = [HttpEmbed ''hello world'', PgInsert ''hello world'' [11]]"
  by (simp add: Query_def SearchDocuments_def pg_select_def GenerateResponse_def
      AddDocuments_def goroutine_def GetEmbedding_def AddDocument_def pg_insert_def
      vector_only_env_def demo_env_def empty_world_def stored_world_def TrimSpace_def TrimLeft.simps
      white_space_def Let_def record_call_def)

section \<open>The upload\<close>

text \<open>
  C10 as the code has it. For an uploaded text that is already trimmed and at least
  5 bytes long, \<^verbatim>\<open>UploadDocumentGin\<close> leaves the same state as
  \<^verbatim>\<open>AddDocuments\<close> on the batch of that one text (the same embedding call and
  the same \<^verbatim>\<open>AddDocument\<close>) and answers with the same status code. The two
  responses have no field but \<^verbatim>\<open>message\<close>, \<^verbatim>\<open>error\<close> and \<^verbatim>\<open>details\<close>: the
  id of the row is not returned.
\<close>

theorem upload_like_single_add:
  assumes "TrimSpace content = content" and "5 \<le> length content"
  shows "snd (UploadDocumentGin env (File content) w) = snd (AddDocuments env (Bound [content]) w)
       \<and> status (fst (UploadDocumentGin env (File content) w))
           = status (fst (AddDocuments env (Bound [content]) w))
       \<and> fst ` set (H (fst (UploadDocumentGin env (File content) w))) \<subseteq> {''message'', ''error''}
       \<and> fst ` set (H (fst (AddDocuments env (Bound [content]) w)))
           \<subseteq> {''message'', ''error'', ''details''}"
proof -
  obtain v err w1 where ge: "GetEmbedding env content w = ((v, err), w1)"
    by (metis surj_pair)
  obtain err2 w2 where ad: "AddDocument env content v w1 = (err2, w2)"
    by (cases "AddDocument env content v w1")
  show ?thesis
    using assms
    by (simp add: UploadDocumentGin_def AddDocuments_def goroutine_def ge ad JSON_def
        StatusOK_def StatusInternalServerError_def split: option.splits)
qed

theorem upload_like_single_add_witness:
  "snd (UploadDocumentGin demo_env (File ''hello world'') empty_world)
     = snd (AddDocuments demo_env (Bound [''hello world'']) empty_world)
   \<and> status (fst (UploadDocumentGin demo_env (File ''hello world'') empty_world))
     = status (fst (AddDocuments demo_env (Bound [''hello world'']) empty_world))"
proof -
  have a: "TrimSpace ''hello world'' = ''hello world''"
    by (simp add: TrimSpace_def TrimLeft.simps white_space_def)
  have b: "5 \<le> length ''hello world''"
    by simp
  show ?thesis
    using upload_like_single_add [OF a b, of demo_env empty_world] by simp
qed

text \<open>
  C10 as the claim states it fails. The upload neither trims nor checks the length,
  and neither handler returns an id: \<open>hi\<close> is rejected in a batch and stored by
  the upload, which answers with a message only, and a text with surrounding spaces
  is stored trimmed by the batch and as it is by the upload.
\<close>

theorem upload_counterexample:
  "fst (AddDocuments vector_only_env (Bound [''hi'']) empty_world)
     = JSON StatusBadRequest
         [(''error'', JString ''Document text must be at least 5 characters long'')]
   \<and> documents (snd (AddDocuments vector_only_env (Bound [''hi'']) empty_world)) = []
   \<and> fst (UploadDocumentGin vector_only_env (File ''hi'') empty_world)
     = JSON StatusOK [(''message'', JString ''Document uploaded successfully'')]
   \<and> documents (snd (UploadDocumentGin vector_only_env (File ''hi'') empty_world))
     = [(1, ''hi'', [2])]
   \<and> documents (snd (AddDocuments vector_only_env (Bound [''  hello world  '']) empty_world))
     = [(1, ''hello world'', [11])]
   \<and> documents (snd (UploadDocumentGin vector_only_env (File ''  hello world  '') empty_world))
     = [(1, ''  hello world  '', [15])]"
  by (simp add: UploadDocumentGin_def
      AddDocuments_def goroutine_def GetEmbedding_def AddDocument_def pg_insert_def
      vector_only_env_def demo_env_def empty_world_def TrimSpace_def TrimLeft.simps
      white_space_def Let_def record_call_def)

end
